theory Spec2Isabelle
  imports Complex_Main "HOL-Library.AList"
begin

section \<open>Values of the host language\<close>

text \<open>
  The server of \<^verbatim>\<open>src/index.js\<close> computes with JavaScript numbers. They are modelled
  as real numbers together with the one non-number the code can produce, \<open>NaN\<close>: rounding
  and the infinities of IEEE doubles are left out, every operation that meets \<open>NaN\<close>
  returns \<open>NaN\<close>, and every comparison with \<open>NaN\<close> is false, as in the language.
\<close>

datatype jsnum = NaN | Num real

fun js_add :: "jsnum \<Rightarrow> jsnum \<Rightarrow> jsnum" where
  "js_add (Num a) (Num b) = Num (a + b)"
| "js_add _ _ = NaN"

fun js_sub :: "jsnum \<Rightarrow> jsnum \<Rightarrow> jsnum" where
  "js_sub (Num a) (Num b) = Num (a - b)"
| "js_sub _ _ = NaN"

fun js_mul :: "jsnum \<Rightarrow> jsnum \<Rightarrow> jsnum" where
  "js_mul (Num a) (Num b) = Num (a * b)"
| "js_mul _ _ = NaN"

text \<open>
  Division by zero gives an infinity (or \<open>NaN\<close> for \<open>0 / 0\<close>) in the language; the model
  has no infinities and returns \<open>NaN\<close> there. The only divisor in the code is
  \<open>previousClose\<close>, which is at least 50 or a positive entry of the table of base prices
  whenever it is a number.
\<close>

fun js_div :: "jsnum \<Rightarrow> jsnum \<Rightarrow> jsnum" where
  "js_div (Num a) (Num b) = (if b = 0 then NaN else Num (a / b))"
| "js_div _ _ = NaN"

text \<open>\<^verbatim>\<open>Math.max\<close> and \<^verbatim>\<open>Math.min\<close>: \<open>NaN\<close> as soon as one argument is \<open>NaN\<close>.\<close>

fun Math_max :: "jsnum \<Rightarrow> jsnum \<Rightarrow> jsnum" where
  "Math_max (Num a) (Num b) = Num (max a b)"
| "Math_max _ _ = NaN"

fun Math_min :: "jsnum \<Rightarrow> jsnum \<Rightarrow> jsnum" where
  "Math_min (Num a) (Num b) = Num (min a b)"
| "Math_min _ _ = NaN"

fun js_le :: "jsnum \<Rightarrow> jsnum \<Rightarrow> bool" where
  "js_le (Num a) (Num b) = (a \<le> b)"
| "js_le _ _ = False"

fun js_gt :: "jsnum \<Rightarrow> jsnum \<Rightarrow> bool" where
  "js_gt (Num a) (Num b) = (a > b)"
| "js_gt _ _ = False"

text \<open>
  \<^verbatim>\<open>symbol.includes(pat)\<close> on strings: \<open>pat\<close> occurs in \<open>s\<close> at some position.
\<close>

fun js_includes :: "string \<Rightarrow> string \<Rightarrow> bool" where
  "js_includes [] pat = (pat = [])"
| "js_includes (c # cs) pat = (take (length pat) (c # cs) = pat \<or> js_includes cs pat)"

section \<open>The data model\<close>

type_synonym clientId = string

text \<open>
  An entry of the array \<^verbatim>\<open>symbols\<close> of a message, and so a member of the sets of symbols:
  the protocol asks for strings, but \<^verbatim>\<open>JSON.parse\<close> also gives numbers, booleans and
  \<^verbatim>\<open>null\<close>, and the handlers store whatever they are given. Arrays and objects, which a
  \<^verbatim>\<open>Set\<close> compares by identity, are outside the model.
\<close>

datatype symbol = Str string | Number real | Boolean bool | Null

text \<open>
  A handler either returns or raises; in both cases the fields have the values the handler
  gave them up to that point.
\<close>

datatype 'a outcome = Returns 'a | Raises 'a

text \<open>The state a handler leaves behind, and whether it returned.\<close>

fun outcome_state :: "'a outcome \<Rightarrow> 'a" where
  "outcome_state (Returns s) = s"
| "outcome_state (Raises s) = s"

fun returned :: "'a outcome \<Rightarrow> bool" where
  "returned (Returns s) = True"
| "returned (Raises s) = False"

text \<open>
  The object stored in \<^verbatim>\<open>stockPrices\<close> and sent as the \<^verbatim>\<open>data\<close> of a ticker message.
  The field \<^verbatim>\<open>id\<close> is named \<open>id_sym\<close> here.
\<close>

record price_record =
  id_sym :: symbol
  price :: jsnum
  previousClose :: jsnum
  change :: jsnum
  changePercent :: jsnum
  dayHigh :: jsnum
  dayLow :: jsnum
  dayVolume :: int
  time :: int
  currency :: string
  exchange :: string

text \<open>
  A connection handle of the \<^verbatim>\<open>ws\<close> library, as far as the server looks at it: an
  identity (\<open>sock\<close>), the \<^verbatim>\<open>readyState\<close> (\<^verbatim>\<open>WebSocket.OPEN\<close> is 1), and whether a call
  of \<^verbatim>\<open>send\<close> on it raises. The last two belong to the environment.
\<close>

record websocket =
  sock :: nat
  readyState :: nat
  sendThrows :: bool

definition OPEN :: nat where
  "OPEN = 1"

text \<open>The value of the map \<^verbatim>\<open>clients\<close>; a \<^verbatim>\<open>Set\<close> is a list without repetition, in insertion order.\<close>

record client =
  ws :: websocket
  subscribedSymbols :: "symbol list"
  lastPing :: int

datatype server_msg =
    ConnectionMsg clientId int
  | TickerMsg price_record
  | PongMsg int
  | ErrorMsg string

text \<open>
  The fields of \<^verbatim>\<open>YahooFinanceServer\<close> that the WebSocket side uses. The maps \<^verbatim>\<open>clients\<close>
  and \<^verbatim>\<open>stockPrices\<close> are association lists in insertion order, as a \<^verbatim>\<open>Map\<close> iterates.
  \<open>sent\<close> is the log of the calls of \<^verbatim>\<open>ws.send\<close> that returned, with the socket each
  went to; \<open>randomCalls\<close> counts the calls of \<^verbatim>\<open>Math.random\<close> made so far.
\<close>

record server =
  clients :: "(clientId \<times> client) list"
  activeSymbols :: "symbol list"
  stockPrices :: "(symbol \<times> price_record) list"
  sent :: "(nat \<times> server_msg) list"
  randomCalls :: nat

definition constructor :: server where
  "constructor = \<lparr>clients = [], activeSymbols = [], stockPrices = [], sent = [], randomCalls = 0\<rparr>"

text \<open>\<^verbatim>\<open>Set.prototype.add\<close> and \<^verbatim>\<open>Set.prototype.delete\<close>.\<close>

definition set_add :: "'a \<Rightarrow> 'a list \<Rightarrow> 'a list" where
  "set_add x xs = (if x \<in> set xs then xs else xs @ [x])"

definition set_delete :: "'a \<Rightarrow> 'a list \<Rightarrow> 'a list" where
  "set_delete x xs = removeAll x xs"

text \<open>
  \<^verbatim>\<open>Math.random()\<close>: the environment is the sequence \<open>rand\<close> of the values the calls
  return, each in \<open>[0, 1)\<close>; a call reads the next one. \<^verbatim>\<open>Date.now()\<close> is the argument
  \<open>now\<close> of a handler: the clock is taken not to move while one handler runs.
\<close>

definition Math_random :: "(nat \<Rightarrow> real) \<Rightarrow> server \<Rightarrow> real \<times> server" where
  "Math_random rand s = (rand (randomCalls s), s\<lparr>randomCalls := Suc (randomCalls s)\<rparr>)"

section \<open>The price store\<close>

text \<open>
  \<^verbatim>\<open>basePrices[symbol]\<close>. The table is an object literal, so besides its fifteen own
  keys the lookup finds the members every object inherits from \<^verbatim>\<open>Object.prototype\<close>;
  these are functions (an object for \<^verbatim>\<open>__proto__\<close>), truthy, and \<open>NaN\<close> in arithmetic.
  \<open>None\<close> is \<^verbatim>\<open>undefined\<close>. A key that is not a string is looked up under its text, and
  the text of a number, of a boolean or of \<^verbatim>\<open>null\<close> is none of these names.
\<close>

definition ownBasePrices :: "(string \<times> real) list" where
  "ownBasePrices =
    [(''AAPL'', 150), (''MSFT'', 300), (''GOOGL'', 2500), (''GOOG'', 2500),
     (''AMZN'', 3000), (''TSLA'', 800), (''NVDA'', 400), (''META'', 250),
     (''NFLX'', 400), (''BTC-USD'', 35000), (''ETH-USD'', 2000), (''JPM'', 140),
     (''JNJ'', 160), (''V'', 220), (''PG'', 140)]"

definition inheritedMembers :: "string list" where
  "inheritedMembers =
    [''constructor'', ''hasOwnProperty'', ''isPrototypeOf'', ''propertyIsEnumerable'',
     ''toLocaleString'', ''toString'', ''valueOf'', ''__proto__'',
     ''__defineGetter__'', ''__defineSetter__'', ''__lookupGetter__'', ''__lookupSetter__'']"

definition basePrices :: "symbol \<Rightarrow> jsnum option" where
  "basePrices symbol =
    (case symbol of
       Str name \<Rightarrow>
         (case map_of ownBasePrices name of
            Some v \<Rightarrow> Some (Num v)
          | None \<Rightarrow> if name \<in> set inheritedMembers then Some NaN else None)
     | _ \<Rightarrow> None)"

text \<open>
  The object literal that \<^verbatim>\<open>initializeStockPrice\<close> stores, from the base price and its
  four draws, for a symbol that is the string \<open>name\<close>.
\<close>

definition initialData ::
  "int \<Rightarrow> string \<Rightarrow> jsnum \<Rightarrow> real \<Rightarrow> real \<Rightarrow> real \<Rightarrow> real \<Rightarrow> price_record" where
  "initialData now name basePrice r1 r2 r3 r4 =
    (let chg = js_mul (js_mul (Num (r1 - 0.5)) basePrice) (Num 0.05);
         prc = Math_max (Num 0.01) (js_add basePrice chg)
     in \<lparr>id_sym = Str name,
         price = prc,
         previousClose = basePrice,
         change = chg,
         changePercent = js_mul (js_div chg basePrice) (Num 100),
         dayHigh = js_mul prc (Num (1 + r2 * 0.03)),
         dayLow = js_mul prc (Num (1 - r3 * 0.03)),
         dayVolume = \<lfloor>r4 * 50000000 + 1000000\<rfloor>,
         time = now,
         currency = (if js_includes name ''USD'' then ''USD'' else ''USD''),
         exchange = (if js_includes name ''USD'' then ''CRYPTO'' else ''NASDAQ'')\<rparr>)"

text \<open>
  \<^verbatim>\<open>initializeStockPrice\<close>: the draw for the base price is made only when the lookup in
  the table gives nothing. The fields of the object literal are computed in their order,
  so the draws are made before \<^verbatim>\<open>symbol.includes\<close> is called for the currency; on a symbol
  that is not a string that call raises, and \<^verbatim>\<open>stockPrices.set\<close> is not reached.
\<close>

definition initializeStockPrice ::
  "(nat \<Rightarrow> real) \<Rightarrow> int \<Rightarrow> symbol \<Rightarrow> server \<Rightarrow> server outcome" where
  "initializeStockPrice rand now symbol s =
    (let (basePrice, s1) =
           (case basePrices symbol of
              Some v \<Rightarrow> (v, s)
            | None \<Rightarrow> (let (r, s') = Math_random rand s in (Num (r * 200 + 50), s')));
         (r1, s2) = Math_random rand s1;
         (r2, s3) = Math_random rand s2;
         (r3, s4) = Math_random rand s3;
         (r4, s5) = Math_random rand s4
     in case symbol of
          Str name \<Rightarrow>
            Returns (s5\<lparr>stockPrices :=
              AList.update symbol (initialData now name basePrice r1 r2 r3 r4) (stockPrices s5)\<rparr>)
        | _ \<Rightarrow> Raises s5)"

text \<open>
  The first lines of the body of the loop of \<^verbatim>\<open>updatePrices\<close>: the step drawn for a
  symbol that is a string.
\<close>

definition volatility :: "string \<Rightarrow> real" where
  "volatility symbol = (if js_includes symbol ''USD'' then 0.02 else 0.01)"

definition stepChangePercent :: "string \<Rightarrow> real \<Rightarrow> real" where
  "stepChangePercent symbol r = (r - 0.5) * volatility symbol"

text \<open>The record \<^verbatim>\<open>updatedData\<close> that the loop builds from \<^verbatim>\<open>currentData\<close> and two draws.\<close>

definition updatedData :: "int \<Rightarrow> string \<Rightarrow> real \<Rightarrow> real \<Rightarrow> price_record \<Rightarrow> price_record" where
  "updatedData now symbol r r' currentData =
    (let changePct = stepChangePercent symbol r;
         newPrice = Math_max (Num 0.01) (js_mul (price currentData) (Num (1 + changePct)));
         chg = js_sub newPrice (previousClose currentData)
     in currentData\<lparr>
          price := newPrice,
          change := chg,
          changePercent := js_mul (js_div chg (previousClose currentData)) (Num 100),
          dayHigh := Math_max (dayHigh currentData) newPrice,
          dayLow := Math_min (dayLow currentData) newPrice,
          dayVolume := dayVolume currentData + \<lfloor>r' * 10000\<rfloor>,
          time := now\<rparr>)"

section \<open>Fan-out and the tick\<close>

text \<open>
  The body of the \<^verbatim>\<open>clients.forEach\<close> of \<^verbatim>\<open>broadcastToClients\<close> for one entry: a
  subscriber whose handle is open is sent the message; a \<^verbatim>\<open>send\<close> that raises is caught
  and the entry is deleted from \<^verbatim>\<open>clients\<close>.
\<close>

definition broadcastStep :: "price_record \<Rightarrow> server \<Rightarrow> clientId \<times> client \<Rightarrow> server" where
  "broadcastStep tickerData s entry =
    (let (clientId, client) = entry in
     if id_sym tickerData \<in> set (subscribedSymbols client) then
       (if readyState (ws client) = OPEN then
          (if sendThrows (ws client)
           then s\<lparr>clients := AList.delete clientId (clients s)\<rparr>
           else s\<lparr>sent := sent s @ [(sock (ws client), TickerMsg tickerData)]\<rparr>)
        else s)
     else s)"

text \<open>
  The loop deletes no entry but the one it is at, so it visits exactly the entries the map
  had when it started.
\<close>

definition broadcastToClients :: "price_record \<Rightarrow> server \<Rightarrow> server" where
  "broadcastToClients tickerData s = foldl (broadcastStep tickerData) s (clients s)"

text \<open>
  The body of the \<^verbatim>\<open>activeSymbols.forEach\<close> of \<^verbatim>\<open>updatePrices\<close> for one symbol. With
  a record, the first thing it does is call \<^verbatim>\<open>symbol.includes\<close> for the volatility, which
  raises on a symbol that is not a string.
\<close>

definition updateSymbol ::
  "(nat \<Rightarrow> real) \<Rightarrow> int \<Rightarrow> server \<Rightarrow> symbol \<Rightarrow> server outcome" where
  "updateSymbol rand now s symbol =
    (case map_of (stockPrices s) symbol of
       None \<Rightarrow> initializeStockPrice rand now symbol s
     | Some currentData \<Rightarrow>
         (case symbol of
            Str name \<Rightarrow>
              (let (r, s1) = Math_random rand s;
                   (r', s2) = Math_random rand s1;
                   upd = updatedData now name r r' currentData
               in Returns (broadcastToClients upd
                    (s2\<lparr>stockPrices := AList.update symbol upd (stockPrices s2)\<rparr>)))
          | _ \<Rightarrow> Raises s))"

text \<open>
  The loop over \<^verbatim>\<open>activeSymbols\<close>, which nothing changes while it runs; what the body
  raises ends the loop and leaves \<^verbatim>\<open>updatePrices\<close>, which the timer calls.
\<close>

fun updateAll :: "(nat \<Rightarrow> real) \<Rightarrow> int \<Rightarrow> symbol list \<Rightarrow> server \<Rightarrow> server outcome" where
  "updateAll rand now [] s = Returns s"
| "updateAll rand now (symbol # symbols) s =
    (case updateSymbol rand now s symbol of
       Raises s' \<Rightarrow> Raises s'
     | Returns s' \<Rightarrow> updateAll rand now symbols s')"

definition updatePrices :: "(nat \<Rightarrow> real) \<Rightarrow> int \<Rightarrow> server \<Rightarrow> server outcome" where
  "updatePrices rand now s =
    (if length (activeSymbols s) = 0 then Returns s
     else updateAll rand now (activeSymbols s) s)"

section \<open>Subscriptions and connections\<close>

definition recalculateActiveSymbols :: "server \<Rightarrow> server" where
  "recalculateActiveSymbols s =
    s\<lparr>activeSymbols :=
        foldl (\<lambda>act entry. foldl (\<lambda>act' symbol. set_add symbol act') act
                              (subscribedSymbols (snd entry)))
          [] (clients s)\<rparr>"

definition handleClientDisconnect :: "clientId \<Rightarrow> server \<Rightarrow> server" where
  "handleClientDisconnect clientId s =
    recalculateActiveSymbols (s\<lparr>clients := AList.delete clientId (clients s)\<rparr>)"

text \<open>
  \<^verbatim>\<open>cleanupConnections\<close>: the loop deletes the entries whose handle is not open and counts
  them; the active symbols are recomputed when the count is positive.
\<close>

definition cleanupStep :: "server \<times> nat \<Rightarrow> clientId \<times> client \<Rightarrow> server \<times> nat" where
  "cleanupStep acc entry =
    (let (s, removedCount) = acc; (clientId, client) = entry in
     if readyState (ws client) \<noteq> OPEN
     then (s\<lparr>clients := AList.delete clientId (clients s)\<rparr>, removedCount + 1)
     else (s, removedCount))"

definition cleanupConnections :: "server \<Rightarrow> server" where
  "cleanupConnections s =
    (let (s', removedCount) = foldl cleanupStep (s, 0) (clients s) in
     if removedCount > 0 then recalculateActiveSymbols s' else s')"

text \<open>\<^verbatim>\<open>ws.send(JSON.stringify(m))\<close> on the handle \<open>w\<close>.\<close>

definition ws_send :: "websocket \<Rightarrow> server_msg \<Rightarrow> server \<Rightarrow> server outcome" where
  "ws_send w m s =
    (if sendThrows w then Raises s else Returns (s\<lparr>sent := sent s @ [(sock w, m)]\<rparr>))"

text \<open>
  What a parsed message looks like to the handlers. \<^verbatim>\<open>data.type\<close> is \<^verbatim>\<open>undefined\<close>, a
  string, or another value, which is kept as the text that a template literal makes of it.
  \<^verbatim>\<open>data.symbols\<close> is an array of entries, or something that one of the two tests
  \<^verbatim>\<open>!symbols\<close> and \<^verbatim>\<open>!Array.isArray(symbols)\<close> rejects. The handlers do not look at
  what the entries are.
\<close>

datatype js_type = TypeUndefined | TypeString string | TypeOther string

datatype js_symbols = NotAnArray | SymbolArray "symbol list"

datatype js_data = JsonNull | JsonValue js_type js_symbols

datatype payload = Malformed | Parsed js_data

fun templateText :: "js_type \<Rightarrow> string" where
  "templateText TypeUndefined = ''undefined''"
| "templateText (TypeString t) = t"
| "templateText (TypeOther t) = t"

text \<open>
  The first loop of \<^verbatim>\<open>handleSubscribe\<close>, for one symbol, and the loop; what
  \<^verbatim>\<open>initializeStockPrice\<close> raises ends it.
\<close>

definition subscribeStep ::
  "(nat \<Rightarrow> real) \<Rightarrow> int \<Rightarrow> clientId \<Rightarrow> server \<Rightarrow> symbol \<Rightarrow> server outcome" where
  "subscribeStep rand now clientId s symbol =
    (let s1 = s\<lparr>clients := AList.map_entry clientId
                   (\<lambda>c. c\<lparr>subscribedSymbols := set_add symbol (subscribedSymbols c)\<rparr>)
                   (clients s)\<rparr>;
         s2 = s1\<lparr>activeSymbols := set_add symbol (activeSymbols s1)\<rparr>
     in if map_of (stockPrices s2) symbol = None
        then initializeStockPrice rand now symbol s2
        else Returns s2)"

fun subscribeAll ::
  "(nat \<Rightarrow> real) \<Rightarrow> int \<Rightarrow> clientId \<Rightarrow> symbol list \<Rightarrow> server \<Rightarrow> server outcome" where
  "subscribeAll rand now clientId [] s = Returns s"
| "subscribeAll rand now clientId (symbol # symbols) s =
    (case subscribeStep rand now clientId s symbol of
       Raises s' \<Rightarrow> Raises s'
     | Returns s' \<Rightarrow> subscribeAll rand now clientId symbols s')"

text \<open>The second loop: one snapshot per entry of the array; a \<^verbatim>\<open>send\<close> that raises ends it.\<close>

fun sendSnapshots :: "websocket \<Rightarrow> symbol list \<Rightarrow> server \<Rightarrow> server outcome" where
  "sendSnapshots w [] s = Returns s"
| "sendSnapshots w (symbol # symbols) s =
    (case map_of (stockPrices s) symbol of
       None \<Rightarrow> sendSnapshots w symbols s
     | Some currentData \<Rightarrow>
         (case ws_send w (TickerMsg currentData) s of
            Raises s' \<Rightarrow> Raises s'
          | Returns s' \<Rightarrow> sendSnapshots w symbols s'))"

definition handleSubscribe ::
  "(nat \<Rightarrow> real) \<Rightarrow> int \<Rightarrow> clientId \<Rightarrow> js_symbols \<Rightarrow> server \<Rightarrow> server outcome" where
  "handleSubscribe rand now clientId symbols s =
    (case map_of (clients s) clientId of
       None \<Rightarrow> Returns s
     | Some client \<Rightarrow>
         (case symbols of
            NotAnArray \<Rightarrow> Returns s
          | SymbolArray syms \<Rightarrow>
              (case subscribeAll rand now clientId syms s of
                 Raises s' \<Rightarrow> Raises s'
               | Returns s' \<Rightarrow> sendSnapshots (ws client) syms s')))"

definition handleUnsubscribe :: "clientId \<Rightarrow> js_symbols \<Rightarrow> server \<Rightarrow> server" where
  "handleUnsubscribe clientId symbols s =
    (case map_of (clients s) clientId of
       None \<Rightarrow> s
     | Some client \<Rightarrow>
         (case symbols of
            NotAnArray \<Rightarrow> s
          | SymbolArray syms \<Rightarrow>
              recalculateActiveSymbols
                (s\<lparr>clients := AList.map_entry clientId
                     (\<lambda>c. c\<lparr>subscribedSymbols :=
                              foldl (\<lambda>subs symbol. set_delete symbol subs)
                                (subscribedSymbols c) syms\<rparr>)
                     (clients s)\<rparr>)))"

text \<open>
  \<^verbatim>\<open>handleClientMessage\<close>. Reading \<^verbatim>\<open>data.type\<close> of \<^verbatim>\<open>null\<close> raises, after the test
  that the client is registered.
\<close>

definition handleClientMessage ::
  "(nat \<Rightarrow> real) \<Rightarrow> int \<Rightarrow> clientId \<Rightarrow> js_data \<Rightarrow> server \<Rightarrow> server outcome" where
  "handleClientMessage rand now clientId data s =
    (case map_of (clients s) clientId of
       None \<Rightarrow> Returns s
     | Some client \<Rightarrow>
         (case data of
            JsonNull \<Rightarrow> Raises s
          | JsonValue ty symbols \<Rightarrow>
              if ty = TypeString ''subscribe'' then handleSubscribe rand now clientId symbols s
              else if ty = TypeString ''unsubscribe'' then Returns (handleUnsubscribe clientId symbols s)
              else if ty = TypeString ''ping'' then ws_send (ws client) (PongMsg now) s
              else ws_send (ws client) (ErrorMsg (''Unknown message type: '' @ templateText ty)) s))"

text \<open>
  The listener for \<^verbatim>\<open>message\<close> that \<^verbatim>\<open>setupWebSocket\<close> installs on the handle \<open>w\<close> of
  the connection with identifier \<open>clientId\<close>: whatever the \<^verbatim>\<open>try\<close> block raises is answered
  with an error message on \<open>w\<close>; a \<^verbatim>\<open>send\<close> that raises there leaves the listener.
\<close>

definition onMessage ::
  "(nat \<Rightarrow> real) \<Rightarrow> int \<Rightarrow> clientId \<Rightarrow> websocket \<Rightarrow> payload \<Rightarrow> server \<Rightarrow> server outcome" where
  "onMessage rand now clientId w message s =
    (case (case message of
             Malformed \<Rightarrow> Raises s
           | Parsed data \<Rightarrow> handleClientMessage rand now clientId data s) of
       Returns s' \<Rightarrow> Returns s'
     | Raises s' \<Rightarrow> ws_send w (ErrorMsg ''Invalid JSON message'') s')"

text \<open>
  \<^verbatim>\<open>generateClientId\<close>: \<open>toString36\<close> stands for the rendering
  \<^verbatim>\<open>Number.prototype.toString(36)\<close> of the draw, of which \<^verbatim>\<open>substr(2, 9)\<close> keeps at most
  nine characters from the third on.
\<close>

definition substr :: "nat \<Rightarrow> nat \<Rightarrow> string \<Rightarrow> string" where
  "substr start len str = take len (drop start str)"

definition generateClientId :: "(real \<Rightarrow> string) \<Rightarrow> (nat \<Rightarrow> real) \<Rightarrow> server \<Rightarrow> clientId \<times> server" where
  "generateClientId toString36 rand s =
    (let (r, s') = Math_random rand s in (''client_'' @ substr 2 9 (toString36 r), s'))"

text \<open>The listener for \<^verbatim>\<open>connection\<close>: the new handle is \<open>w\<close>.\<close>

definition onConnection ::
  "(real \<Rightarrow> string) \<Rightarrow> (nat \<Rightarrow> real) \<Rightarrow> int \<Rightarrow> websocket \<Rightarrow> server \<Rightarrow> (clientId \<times> server) outcome" where
  "onConnection toString36 rand now w s =
    (let (clientId, s1) = generateClientId toString36 rand s;
         s2 = s1\<lparr>clients := AList.update clientId
                   \<lparr>ws = w, subscribedSymbols = [], lastPing = now\<rparr> (clients s1)\<rparr>
     in case ws_send w (ConnectionMsg clientId now) s2 of
          Returns s3 \<Rightarrow> Returns (clientId, s3)
        | Raises s3 \<Rightarrow> Raises (clientId, s3))"

section \<open>Vocabulary of the properties\<close>

text \<open>The invariant of a price record: the price is positive and lies between the day's low and high.\<close>

definition price_inv :: "price_record \<Rightarrow> bool" where
  "price_inv rec \<longleftrightarrow>
     js_le (dayLow rec) (price rec) \<and> js_le (price rec) (dayHigh rec) \<and> js_gt (price rec) (Num 0)"

text \<open>
  During the fan-out of \<open>tickerData\<close>, the send to a subscriber with an open handle either
  raises (\<open>sendFails\<close>) or returns (\<open>delivered\<close>).
\<close>

definition sendFails :: "price_record \<Rightarrow> client \<Rightarrow> bool" where
  "sendFails tickerData c \<longleftrightarrow>
     id_sym tickerData \<in> set (subscribedSymbols c) \<and> readyState (ws c) = OPEN \<and> sendThrows (ws c)"

definition delivered :: "price_record \<Rightarrow> client \<Rightarrow> bool" where
  "delivered tickerData c \<longleftrightarrow>
     id_sym tickerData \<in> set (subscribedSymbols c) \<and> readyState (ws c) = OPEN \<and> \<not> sendThrows (ws c)"

text \<open>The union of the subscription sets of the registered sessions, and its agreement with \<^verbatim>\<open>activeSymbols\<close>.\<close>

definition liveUnion :: "server \<Rightarrow> symbol set" where
  "liveUnion s = \<Union> (set (map (\<lambda>entry. set (subscribedSymbols (snd entry))) (clients s)))"

definition activeConsistent :: "server \<Rightarrow> bool" where
  "activeConsistent s \<longleftrightarrow> set (activeSymbols s) = liveUnion s"

text \<open>Every record of \<^verbatim>\<open>stockPrices\<close> carries the symbol it is stored under.\<close>

definition wf_prices :: "server \<Rightarrow> bool" where
  "wf_prices s \<longleftrightarrow> list_all (\<lambda>(k, r). id_sym r = k) (stockPrices s)"

text \<open>
  The sockets that a list of sent messages delivers a ticker of \<open>symbol\<close> to, one entry per
  message, and the messages that a step from \<open>s\<close> to \<open>s'\<close> has added to the log.
\<close>

definition tickersFor :: "symbol \<Rightarrow> (nat \<times> server_msg) list \<Rightarrow> nat list" where
  "tickersFor symbol msgs =
     concat (map (\<lambda>(k, m). case m of
                              TickerMsg td \<Rightarrow> (if id_sym td = symbol then [k] else [])
                            | _ \<Rightarrow> []) msgs)"

definition newMessages :: "server \<Rightarrow> server \<Rightarrow> (nat \<times> server_msg) list" where
  "newMessages s s' = drop (length (sent s)) (sent s')"

text \<open>The state after the body of the first loop of \<^verbatim>\<open>handleSubscribe\<close>, returned or raised.\<close>

definition subscribed :: "(nat \<Rightarrow> real) \<Rightarrow> int \<Rightarrow> clientId \<Rightarrow> server \<Rightarrow> symbol \<Rightarrow> server" where
  "subscribed rand now clientId s symbol = outcome_state (subscribeStep rand now clientId s symbol)"

section \<open>Example states\<close>

text \<open>
  Three registered sessions with open handles; the handle of the second raises on
  \<^verbatim>\<open>send\<close>. All subscribe to \<^verbatim>\<open>AAPL\<close>, only the second to \<^verbatim>\<open>MSFT\<close>.
\<close>

definition exampleRecord :: "string \<Rightarrow> price_record" where
  "exampleRecord symbol = initialData 0 symbol (Num 150) (1/2) (1/2) (1/2) (1/2)"

definition exampleClient :: "nat \<Rightarrow> bool \<Rightarrow> symbol list \<Rightarrow> client" where
  "exampleClient k throws subs =
     \<lparr>ws = \<lparr>sock = k, readyState = OPEN, sendThrows = throws\<rparr>,
      subscribedSymbols = subs, lastPing = 0\<rparr>"

definition threeClients :: server where
  "threeClients =
     \<lparr>clients = [(''client_a'', exampleClient 1 False [Str ''AAPL'']),
                 (''client_b'', exampleClient 2 True [Str ''AAPL'', Str ''MSFT'']),
                 (''client_c'', exampleClient 3 False [Str ''AAPL''])],
      activeSymbols = [Str ''AAPL'', Str ''MSFT''],
      stockPrices = [(Str ''AAPL'', exampleRecord ''AAPL''), (Str ''MSFT'', exampleRecord ''MSFT'')],
      sent = [],
      randomCalls = 0\<rparr>"

text \<open>The state after the fan-out of a record of \<^verbatim>\<open>AAPL\<close> in that state.\<close>

definition afterFailure :: server where
  "afterFailure = broadcastToClients (exampleRecord ''AAPL'') threeClients"

text \<open>
  One registered session without subscriptions, and what the message
  \<^verbatim>\<open>{"type":"subscribe","symbols":[123]}\<close> of its client makes of that state.
\<close>

definition oneClient :: server where
  "oneClient =
     \<lparr>clients = [(''client_a'', exampleClient 1 False [])],
      activeSymbols = [],
      stockPrices = [],
      sent = [],
      randomCalls = 0\<rparr>"

definition numberSubscribed :: "server outcome" where
  "numberSubscribed =
     onMessage (\<lambda>n. 1/2) 7 ''client_a'' (ws (exampleClient 1 False []))
       (Parsed (JsonValue (TypeString ''subscribe'') (SymbolArray [Number 123]))) oneClient"

text \<open>The state after a later request of the same client for \<^verbatim>\<open>AAPL\<close>.\<close>

definition numberThenString :: "server outcome" where
  "numberThenString =
     onMessage (\<lambda>n. 1/2) 8 ''client_a'' (ws (exampleClient 1 False []))
       (Parsed (JsonValue (TypeString ''subscribe'') (SymbolArray [Str ''AAPL''])))
       (outcome_state numberSubscribed)"

text \<open>
  A rendering of draws in base 36 for the examples; it is the one of the language at the
  draws 0 and 0.5, which are all that the examples render.
\<close>

definition exampleToString36 :: "real \<Rightarrow> string" where
  "exampleToString36 r = (if r = 0 then ''0'' else ''0.i'')"

section \<open>Strings and the price store\<close>

lemma js_includes_iff: "js_includes s pat \<longleftrightarrow> (\<exists>p q. s = p @ pat @ q)"
proof (induction s)
  case Nil
  then show ?case by auto
next
  case (Cons c cs)
  show ?case
  proof
    assume "js_includes (c # cs) pat"
    then consider "take (length pat) (c # cs) = pat" | "js_includes cs pat" by auto
    then show "\<exists>p q. c # cs = p @ pat @ q"
    proof cases
      case 1
      then have "c # cs = [] @ pat @ drop (length pat) (c # cs)"
        by (metis append_Nil append_take_drop_id)
      then show ?thesis by blast
    next
      case 2
      then obtain p q where "cs = p @ pat @ q" using Cons.IH by blast
      then have "c # cs = (c # p) @ pat @ q" by simp
      then show ?thesis by blast
    qed
  next
    assume "\<exists>p q. c # cs = p @ pat @ q"
    then obtain p q where pq: "c # cs = p @ pat @ q" by blast
    show "js_includes (c # cs) pat"
    proof (cases p)
      case Nil
      then have "take (length pat) (c # cs) = pat" using pq by simp
      then show ?thesis by simp
    next
      case (Cons a p')
      then have "cs = p' @ pat @ q" using pq by simp
      then have "js_includes cs pat" using Cons.IH by blast
      then show ?thesis by simp
    qed
  qed
qed

text \<open>
  \<^verbatim>\<open>initializeStockPrice\<close> with the draws written out by their position in the sequence:
  for a string it returns with the record stored, for any other entry it raises after its
  five draws with nothing stored.
\<close>

lemma initializeStockPrice_eq:
  "initializeStockPrice rand now (Str name) s =
    Returns
     (let n = randomCalls s + (case basePrices (Str name) of Some v \<Rightarrow> 0 | None \<Rightarrow> 1)
      in s\<lparr>randomCalls := n + 4,
           stockPrices := AList.update (Str name)
             (initialData now name
                (case basePrices (Str name) of
                   Some v \<Rightarrow> v
                 | None \<Rightarrow> Num (rand (randomCalls s) * 200 + 50))
                (rand n) (rand (n + 1)) (rand (n + 2)) (rand (n + 3)))
             (stockPrices s)\<rparr>)"
  by (simp add: initializeStockPrice_def Math_random_def Let_def eval_nat_numeral split: option.splits)

lemma initializeStockPrice_raises:
  assumes "\<And>name. symbol \<noteq> Str name"
  shows "initializeStockPrice rand now symbol s = Raises (s\<lparr>randomCalls := randomCalls s + 5\<rparr>)"
proof (cases symbol)
  case (Str name)
  then show ?thesis using assms by blast
qed (simp_all add: initializeStockPrice_def basePrices_def Math_random_def Let_def eval_nat_numeral)

lemma basePrices_pos: "basePrices symbol = Some (Num v) \<Longrightarrow> 0 < v"
  by (auto simp: basePrices_def ownBasePrices_def split: symbol.splits option.splits if_splits)

lemma basePrices_NaN: "basePrices (Str name) = Some NaN \<Longrightarrow> name \<in> set inheritedMembers"
  by (auto simp: basePrices_def split: option.splits if_splits)

lemma initialData_inv:
  assumes "0 < b" "0 \<le> r2" "0 \<le> r3"
  shows "price_inv (initialData now name (Num b) r1 r2 r3 r4)"
proof -
  define p where "p = max (1/100) (b + (r1 - 1/2) * b * (1/20))"
  have p: "0 < p" unfolding p_def by simp
  have "p * (1 - r3 * (3/100)) \<le> p * 1" using p assms by (intro mult_left_mono) auto
  moreover have "p * 1 \<le> p * (1 + r2 * (3/100))" using p assms by (intro mult_left_mono) auto
  ultimately show ?thesis using p
    by (simp add: price_inv_def initialData_def Let_def p_def)
qed

text \<open>
  Away from the inherited member names the invariant holds for a new record, and an
  advance of a record whose price, high and low are numbers gives a record that has it.
\<close>

lemma initializeStockPrice_inv:
  assumes draws: "\<And>n. 0 \<le> rand n \<and> rand n < 1" and sym: "name \<notin> set inheritedMembers"
  shows "\<exists>rec. map_of (stockPrices (outcome_state (initializeStockPrice rand now (Str name) s)))
             (Str name) = Some rec
           \<and> price_inv rec"
proof (cases "basePrices (Str name)")
  case None
  have "0 < rand (randomCalls s) * 200 + 50"
    using draws[of "randomCalls s"] by (simp add: add_pos_nonneg)
  then show ?thesis
    using None draws by (simp add: initializeStockPrice_eq Let_def update_conv' initialData_inv)
next
  case (Some v)
  then obtain b where v: "v = Num b" using sym basePrices_NaN by (cases v) auto
  then have "0 < b" using Some basePrices_pos by simp
  then show ?thesis
    using Some v draws by (simp add: initializeStockPrice_eq Let_def update_conv' initialData_inv)
qed

lemma updatedData_inv:
  assumes "price rec = Num p" "dayHigh rec = Num h" "dayLow rec = Num l"
  shows "price_inv (updatedData now symbol r r' rec)"
  using assms by (simp add: price_inv_def updatedData_def Let_def)

text \<open>
  Claim C2. The invariant \<open>dayLow \<le> price \<le> dayHigh\<close> and \<open>price > 0\<close> is meant to hold for
  every record from its creation on. For the symbol \<^verbatim>\<open>constructor\<close> the lookup in the table
  of base prices finds the inherited member, the new record has the price \<open>NaN\<close>, none of
  the three comparisons holds, and an advance leaves the price \<open>NaN\<close>.
\<close>

theorem initializeStockPrice_constructor:
  "\<exists>rec. returned (initializeStockPrice rand now (Str ''constructor'') s)
     \<and> map_of (stockPrices (outcome_state (initializeStockPrice rand now (Str ''constructor'') s)))
          (Str ''constructor'') = Some rec
     \<and> price rec = NaN
     \<and> \<not> js_gt (price rec) (Num 0)
     \<and> \<not> js_le (dayLow rec) (price rec)
     \<and> \<not> js_le (price rec) (dayHigh rec)
     \<and> \<not> price_inv rec
     \<and> price (updatedData now' ''constructor'' r r' rec) = NaN"
  by (simp add: initializeStockPrice_eq initialData_def updatedData_def price_inv_def Let_def
      basePrices_def ownBasePrices_def inheritedMembers_def update_conv')

text \<open>
  Claim C3, as amended. The step applied to the price is \<open>(r - 0.5) * volatility\<close> for the
  draw \<open>r\<close>, an affine function of the draw, with volatility 0.02 for a symbol that contains
  \<^verbatim>\<open>USD\<close> and 0.01 otherwise. So the step ranges over exactly \<open>[-0.01, 0.01)\<close> for the
  former and \<open>[-0.005, 0.005)\<close> for the latter: the half-width is half the volatility.
\<close>

theorem stepChangePercent_range:
  assumes "0 \<le> r" and "r < 1"
  shows "stepChangePercent symbol r = (r - 1/2) * (if js_includes symbol ''USD'' then 2/100 else 1/100)
    \<and> (if js_includes symbol ''USD''
        then - (1/100) \<le> stepChangePercent symbol r \<and> stepChangePercent symbol r < 1/100
        else - (1/200) \<le> stepChangePercent symbol r \<and> stepChangePercent symbol r < 1/200)
    \<and> (\<forall>d. - (volatility symbol / 2) \<le> d \<and> d < volatility symbol / 2
           \<longrightarrow> (\<exists>r0. 0 \<le> r0 \<and> r0 < 1 \<and> stepChangePercent symbol r0 = d))
    \<and> price (updatedData now symbol r r' currentData) =
        Math_max (Num (1/100)) (js_mul (price currentData) (Num (1 + stepChangePercent symbol r)))"
proof -
  have v: "0 < volatility symbol" by (simp add: volatility_def)
  have attained: "\<exists>r0. 0 \<le> r0 \<and> r0 < 1 \<and> stepChangePercent symbol r0 = d"
    if d: "- (volatility symbol / 2) \<le> d \<and> d < volatility symbol / 2" for d
  proof -
    define r0 where "r0 = d / volatility symbol + 1/2"
    have "0 \<le> r0" using v d by (simp add: r0_def field_simps)
    moreover have "r0 < 1" using v d by (simp add: r0_def field_simps)
    moreover have "stepChangePercent symbol r0 = d"
      using v by (simp add: stepChangePercent_def r0_def)
    ultimately show ?thesis by blast
  qed
  have "stepChangePercent symbol r = (r - 1/2) * (if js_includes symbol ''USD'' then 2/100 else 1/100)"
    by (simp add: stepChangePercent_def volatility_def)
  moreover have "if js_includes symbol ''USD''
        then - (1/100) \<le> stepChangePercent symbol r \<and> stepChangePercent symbol r < 1/100
        else - (1/200) \<le> stepChangePercent symbol r \<and> stepChangePercent symbol r < 1/200"
    using assms by (simp add: stepChangePercent_def volatility_def)
  moreover have "price (updatedData now symbol r r' currentData) =
        Math_max (Num (1/100)) (js_mul (price currentData) (Num (1 + stepChangePercent symbol r)))"
    by (simp add: updatedData_def Let_def)
  ultimately show ?thesis using attained by blast
qed

theorem stepChangePercent_range_witness:
  "(0::real) \<le> 1/4 \<and> (1/4::real) < 1
   \<and> stepChangePercent ''BTC-USD'' (1/4) = - (1/200)
   \<and> stepChangePercent ''AAPL'' (1/4) = - (1/400)"
  using stepChangePercent_range [of "1/4" "''BTC-USD''"] stepChangePercent_range [of "1/4" "''AAPL''"]
  by simp

text \<open>
  Claim C3, as stated, fails: no draw in \<open>[0, 1)\<close> gives a crypto symbol the step \<open>-0.02\<close>,
  nor another symbol the step \<open>-0.01\<close>; the draw 0 gives half of each.
\<close>

theorem stepChangePercent_full_range_counterexample:
  "\<not> (\<exists>r. 0 \<le> r \<and> r < 1 \<and> stepChangePercent ''BTC-USD'' r = - (2/100))
   \<and> \<not> (\<exists>r. 0 \<le> r \<and> r < 1 \<and> stepChangePercent ''AAPL'' r = - (1/100))
   \<and> stepChangePercent ''BTC-USD'' 0 = - (1/100)
   \<and> stepChangePercent ''AAPL'' 0 = - (1/200)"
  by (auto simp: stepChangePercent_def volatility_def)

text \<open>
  Claim C9. The record that \<^verbatim>\<open>initializeStockPrice\<close> stores for a symbol has the currency
  \<^verbatim>\<open>USD\<close> whatever the symbol is; its exchange is \<^verbatim>\<open>CRYPTO\<close> when \<^verbatim>\<open>USD\<close> occurs somewhere
  in the symbol and \<^verbatim>\<open>NASDAQ\<close> when it does not; an advance changes neither field. (Records
  are stored for strings only, see \<open>initializeStockPrice_raises\<close>.)
\<close>

theorem currency_and_exchange:
  "\<exists>rec. returned (initializeStockPrice rand now (Str name) s)
     \<and> map_of (stockPrices (outcome_state (initializeStockPrice rand now (Str name) s)))
          (Str name) = Some rec
     \<and> currency rec = ''USD''
     \<and> exchange rec = (if (\<exists>p q. name = p @ ''USD'' @ q) then ''CRYPTO'' else ''NASDAQ'')
     \<and> currency (updatedData now' name r r' rec) = ''USD''
     \<and> exchange (updatedData now' name r r' rec) = exchange rec"
  using js_includes_iff [of name "''USD''"]
  by (simp add: initializeStockPrice_eq initialData_def updatedData_def Let_def update_conv')

lemma id_sym_exampleRecord: "id_sym (exampleRecord name) = Str name"
  by (simp add: exampleRecord_def initialData_def Let_def)

section \<open>Fan-out\<close>

lemma delete_filter: "AList.delete k al = filter (\<lambda>e. fst e \<noteq> k) al"
  by (induction al) auto

lemma broadcast_fold:
  "foldl (broadcastStep td) s es =
     s\<lparr>clients := filter (\<lambda>e. fst e \<notin> fst ` {e \<in> set es. sendFails td (snd e)}) (clients s),
       sent := sent s @ map (\<lambda>e. (sock (ws (snd e)), TickerMsg td)) (filter (\<lambda>e. delivered td (snd e)) es)\<rparr>"
proof (induction es arbitrary: s)
  case Nil
  then show ?case by simp
next
  case (Cons e es)
  obtain k c where e: "e = (k, c)" by (cases e)
  have *: "{x \<in> set (e # es). sendFails td (snd x)} =
        (if sendFails td c then {e} else {}) \<union> {x \<in> set es. sendFails td (snd x)}"
    using e by auto
  show ?case
  proof (cases "sendFails td c")
    case True
    then have step: "broadcastStep td s e = s\<lparr>clients := filter (\<lambda>x. fst x \<noteq> k) (clients s)\<rparr>"
      by (simp add: broadcastStep_def e sendFails_def delete_filter)
    have nd: "\<not> delivered td c" using True by (simp add: sendFails_def delivered_def)
    have "filter (\<lambda>x. fst x \<notin> fst ` {x \<in> set es. sendFails td (snd x)}) (filter (\<lambda>x. fst x \<noteq> k) (clients s))
        = filter (\<lambda>x. fst x \<notin> fst ` {x \<in> set (e # es). sendFails td (snd x)}) (clients s)"
      unfolding * using True e by (auto intro!: filter_cong)
    then show ?thesis using Cons.IH[of "broadcastStep td s e"] step nd e by simp
  next
    case False
    show ?thesis
    proof (cases "delivered td c")
      case True
      then have step: "broadcastStep td s e = s\<lparr>sent := sent s @ [(sock (ws c), TickerMsg td)]\<rparr>"
        by (simp add: broadcastStep_def e delivered_def)
      show ?thesis using Cons.IH[of "broadcastStep td s e"] step True False e unfolding * by simp
    next
      case nd: False
      then have step: "broadcastStep td s e = s"
        using False by (auto simp add: broadcastStep_def e delivered_def sendFails_def)
      show ?thesis using Cons.IH[of "broadcastStep td s e"] step nd False e unfolding * by simp
    qed
  qed
qed

lemma broadcastToClients_eq:
  assumes "distinct (map fst (clients s))"
  shows "broadcastToClients td s =
     s\<lparr>clients := filter (\<lambda>e. \<not> sendFails td (snd e)) (clients s),
       sent := sent s @ map (\<lambda>e. (sock (ws (snd e)), TickerMsg td)) (filter (\<lambda>e. delivered td (snd e)) (clients s))\<rparr>"
proof -
  have "filter (\<lambda>e. fst e \<notin> fst ` {e \<in> set (clients s). sendFails td (snd e)}) (clients s)
      = filter (\<lambda>e. \<not> sendFails td (snd e)) (clients s)"
  proof (rule filter_cong[OF refl])
    fix e assume e: "e \<in> set (clients s)"
    show "(fst e \<notin> fst ` {e \<in> set (clients s). sendFails td (snd e)}) = (\<not> sendFails td (snd e))"
    proof
      assume "fst e \<notin> fst ` {e \<in> set (clients s). sendFails td (snd e)}"
      then show "\<not> sendFails td (snd e)" using e by auto
    next
      assume nf: "\<not> sendFails td (snd e)"
      show "fst e \<notin> fst ` {e \<in> set (clients s). sendFails td (snd e)}"
      proof
        assume "fst e \<in> fst ` {e \<in> set (clients s). sendFails td (snd e)}"
        then obtain e' where e': "e' \<in> set (clients s)" "sendFails td (snd e')" "fst e' = fst e" by auto
        then have "e' = e" using assms e by (metis eq_key_imp_eq_value prod.collapse)
        then show False using nf e' by simp
      qed
    qed
  qed
  then show ?thesis by (simp add: broadcastToClients_def broadcast_fold)
qed

text \<open>
  Claim C4. In the fan-out of a record, a \<^verbatim>\<open>send\<close> that raises is caught inside the loop:
  \<^verbatim>\<open>broadcastToClients\<close> always returns, the sessions it removes from \<^verbatim>\<open>clients\<close> are
  exactly those whose send raised (a session goes with its subscription set), the other
  sessions are left as they were, and every subscriber with an open handle whose send
  returns is sent the record, wherever it stands among the failing ones.
\<close>

theorem broadcastToClients_isolates_failures:
  assumes "distinct (map fst (clients s))"
  shows "clients (broadcastToClients tickerData s) =
           filter (\<lambda>entry. \<not> sendFails tickerData (snd entry)) (clients s)
       \<and> sent (broadcastToClients tickerData s) =
           sent s @ map (\<lambda>entry. (sock (ws (snd entry)), TickerMsg tickerData))
                      (filter (\<lambda>entry. delivered tickerData (snd entry)) (clients s))
       \<and> stockPrices (broadcastToClients tickerData s) = stockPrices s
       \<and> activeSymbols (broadcastToClients tickerData s) = activeSymbols s"
  using assms by (simp add: broadcastToClients_eq)

theorem broadcastToClients_isolates_failures_witness:
  "distinct (map fst (clients threeClients))
   \<and> clients (broadcastToClients (exampleRecord ''AAPL'') threeClients) =
       [(''client_a'', exampleClient 1 False [Str ''AAPL'']), (''client_c'', exampleClient 3 False [Str ''AAPL''])]
   \<and> sent (broadcastToClients (exampleRecord ''AAPL'') threeClients) =
       [(1, TickerMsg (exampleRecord ''AAPL'')), (3, TickerMsg (exampleRecord ''AAPL''))]"
  using broadcastToClients_isolates_failures [of threeClients "exampleRecord ''AAPL''"]
  by (simp add: threeClients_def exampleClient_def sendFails_def delivered_def id_sym_exampleRecord)

section \<open>The active symbols\<close>

lemma set_foldl_set_add: "set (foldl (\<lambda>act symbol. set_add symbol act) acc xs) = set acc \<union> set xs"
  by (induction xs arbitrary: acc) (auto simp: set_add_def)

lemma set_recalculate_fold:
  "set (foldl (\<lambda>act entry. foldl (\<lambda>act' symbol. set_add symbol act') act (subscribedSymbols (snd entry))) acc es)
     = set acc \<union> \<Union> (set (map (\<lambda>entry. set (subscribedSymbols (snd entry))) es))"
  by (induction es arbitrary: acc) (auto simp: set_foldl_set_add)

lemma recalculateActiveSymbols_consistent: "activeConsistent (recalculateActiveSymbols s)"
  by (simp add: activeConsistent_def recalculateActiveSymbols_def liveUnion_def set_recalculate_fold)

lemma recalculateActiveSymbols_frame:
  "clients (recalculateActiveSymbols s) = clients s"
  "stockPrices (recalculateActiveSymbols s) = stockPrices s"
  "sent (recalculateActiveSymbols s) = sent s"
  "randomCalls (recalculateActiveSymbols s) = randomCalls s"
  by (simp_all add: recalculateActiveSymbols_def)

lemma foldl_set_delete: "foldl (\<lambda>subs symbol. set_delete symbol subs) subs L = filter (\<lambda>x. x \<notin> set L) subs"
proof (induction L arbitrary: subs)
  case Nil
  then show ?case by simp
next
  case (Cons a L)
  have "filter (\<lambda>x. x \<notin> set L) (removeAll a subs) = filter (\<lambda>x. x \<notin> set (a # L)) subs"
    by (induction subs) auto
  then show ?case using Cons by (simp add: set_delete_def)
qed

lemma map_entry_set:
  assumes "distinct (map fst al)" "(k, v) \<in> set (AList.map_entry k' f al)"
  shows "(k \<noteq> k' \<and> (k, v) \<in> set al) \<or> (k = k' \<and> (\<exists>v'. (k, v') \<in> set al \<and> v = f v'))"
  using assms
proof (induction al)
  case Nil
  then show ?case by simp
next
  case (Cons e al)
  obtain a b where e: "e = (a, b)" by (cases e)
  show ?case
  proof (cases "a = k'")
    case True
    then have "k' \<notin> fst ` set al" using Cons.prems(1) e by auto
    then show ?thesis using Cons.prems True e by (auto simp: image_iff)
  next
    case False
    then show ?thesis using Cons e by auto
  qed
qed

lemma map_fst_map_entry: "map fst (AList.map_entry k f al) = map fst al"
  by (induction al) auto

lemma handleUnsubscribe_eq:
  assumes "map_of (clients s) clientId = Some c"
  shows "handleUnsubscribe clientId (SymbolArray L) s =
     recalculateActiveSymbols (s\<lparr>clients := AList.map_entry clientId
        (\<lambda>c. c\<lparr>subscribedSymbols := filter (\<lambda>x. x \<notin> set L) (subscribedSymbols c)\<rparr>) (clients s)\<rparr>)"
  using assms by (simp add: handleUnsubscribe_def foldl_set_delete)

text \<open>
  Claim C1. \<^verbatim>\<open>activeSymbols\<close> is meant to be the union of the subscription sets of the
  registered sessions after every operation. The removal of a session in the \<^verbatim>\<open>catch\<close> of
  \<^verbatim>\<open>broadcastToClients\<close> does not recompute it, unlike the removals in
  \<^verbatim>\<open>handleClientDisconnect\<close> and \<^verbatim>\<open>cleanupConnections\<close>. In the example the fan-out of
  \<^verbatim>\<open>AAPL\<close> removes the only subscriber of \<^verbatim>\<open>MSFT\<close>; \<^verbatim>\<open>MSFT\<close> stays active, and the tick
  goes on to advance it, in the same tick and in the next one.
\<close>

theorem activeSymbols_stale_after_send_failure:
  "activeConsistent threeClients
   \<and> \<not> activeConsistent afterFailure
   \<and> Str ''MSFT'' \<in> set (activeSymbols afterFailure)
   \<and> Str ''MSFT'' \<notin> liveUnion afterFailure
   \<and> map_of (stockPrices (outcome_state (updatePrices (\<lambda>n. 1/2) 1 afterFailure))) (Str ''MSFT'') =
       Some (updatedData 1 ''MSFT'' (1/2) (1/2) (exampleRecord ''MSFT''))
   \<and> \<not> activeConsistent (outcome_state (updatePrices (\<lambda>n. 1/2) 1 threeClients))
   \<and> map_of (stockPrices (outcome_state (updatePrices (\<lambda>n. 1/2) 1 threeClients))) (Str ''MSFT'') =
       Some (updatedData 1 ''MSFT'' (1/2) (1/2) (exampleRecord ''MSFT''))"
proof -
  have a: "afterFailure = threeClients\<lparr>
      clients := [(''client_a'', exampleClient 1 False [Str ''AAPL'']),
                  (''client_c'', exampleClient 3 False [Str ''AAPL''])],
      sent := [(1, TickerMsg (exampleRecord ''AAPL'')), (3, TickerMsg (exampleRecord ''AAPL''))]\<rparr>"
    by (simp add: afterFailure_def broadcastToClients_def broadcastStep_def threeClients_def
        exampleClient_def id_sym_exampleRecord OPEN_def)
  have 1: "activeConsistent threeClients"
    by (auto simp add: threeClients_def exampleClient_def activeConsistent_def liveUnion_def)
  have 2: "\<not> activeConsistent afterFailure" "Str ''MSFT'' \<in> set (activeSymbols afterFailure)"
    "Str ''MSFT'' \<notin> liveUnion afterFailure"
    by (auto simp add: a threeClients_def exampleClient_def activeConsistent_def liveUnion_def)
  have 3: "map_of (stockPrices (outcome_state (updatePrices (\<lambda>n. 1/2) 1 afterFailure))) (Str ''MSFT'') =
       Some (updatedData 1 ''MSFT'' (1/2) (1/2) (exampleRecord ''MSFT''))"
    by (simp add: a updatePrices_def updateSymbol_def threeClients_def Math_random_def
        broadcastToClients_def broadcastStep_def exampleClient_def id_sym_exampleRecord OPEN_def
        Let_def update_conv' updatedData_def)
  have 4: "\<not> activeConsistent (outcome_state (updatePrices (\<lambda>n. 1/2) 1 threeClients))"
    by (auto simp add: updatePrices_def updateSymbol_def threeClients_def Math_random_def
        broadcastToClients_def broadcastStep_def exampleClient_def id_sym_exampleRecord OPEN_def
        Let_def updatedData_def activeConsistent_def liveUnion_def)
  have 5: "map_of (stockPrices (outcome_state (updatePrices (\<lambda>n. 1/2) 1 threeClients))) (Str ''MSFT'') =
       Some (updatedData 1 ''MSFT'' (1/2) (1/2) (exampleRecord ''MSFT''))"
    by (simp add: updatePrices_def updateSymbol_def threeClients_def Math_random_def
        broadcastToClients_def broadcastStep_def exampleClient_def id_sym_exampleRecord OPEN_def
        Let_def update_conv' updatedData_def)
  show ?thesis using 1 2 3 4 5 by blast
qed

text \<open>
  Claim C8. An unsubscribe of a registered client with the list \<open>L\<close> removes the symbols of
  \<open>L\<close> from that client's set and leaves the other sessions, the price records and the log
  of sent messages as they were; the active symbols are recomputed as the union of the
  subscription sets, so a symbol of \<open>L\<close> that no other session subscribes to leaves them.
  A disconnect removes the session, keeps every price record, and recomputes the active
  symbols in the same way.
\<close>

theorem handleUnsubscribe_frame:
  assumes reg: "map_of (clients s) clientId = Some c" and dist: "distinct (map fst (clients s))"
  shows "map_of (clients (handleUnsubscribe clientId (SymbolArray L) s)) clientId =
           Some (c\<lparr>subscribedSymbols := filter (\<lambda>x. x \<notin> set L) (subscribedSymbols c)\<rparr>)
       \<and> (\<forall>k. k \<noteq> clientId \<longrightarrow>
             map_of (clients (handleUnsubscribe clientId (SymbolArray L) s)) k = map_of (clients s) k)
       \<and> map fst (clients (handleUnsubscribe clientId (SymbolArray L) s)) = map fst (clients s)
       \<and> stockPrices (handleUnsubscribe clientId (SymbolArray L) s) = stockPrices s
       \<and> sent (handleUnsubscribe clientId (SymbolArray L) s) = sent s
       \<and> activeConsistent (handleUnsubscribe clientId (SymbolArray L) s)
       \<and> (\<forall>symbol \<in> set L.
             (\<forall>(k, c') \<in> set (clients s). k \<noteq> clientId \<longrightarrow> symbol \<notin> set (subscribedSymbols c'))
             \<longrightarrow> symbol \<notin> set (activeSymbols (handleUnsubscribe clientId (SymbolArray L) s)))
       \<and> clients (handleClientDisconnect clientId s) = AList.delete clientId (clients s)
       \<and> stockPrices (handleClientDisconnect clientId s) = stockPrices s
       \<and> activeConsistent (handleClientDisconnect clientId s)
       \<and> (\<forall>symbol.
             (\<forall>(k, c') \<in> set (clients s). k \<noteq> clientId \<longrightarrow> symbol \<notin> set (subscribedSymbols c'))
             \<longrightarrow> symbol \<notin> set (activeSymbols (handleClientDisconnect clientId s)))"
proof -
  let ?f = "\<lambda>c. c\<lparr>subscribedSymbols := filter (\<lambda>x. x \<notin> set L) (subscribedSymbols c)\<rparr>"
  let ?s' = "handleUnsubscribe clientId (SymbolArray L) s"
  have cl: "clients ?s' = AList.map_entry clientId ?f (clients s)"
    using reg by (simp add: handleUnsubscribe_eq recalculateActiveSymbols_frame)
  have 1: "map_of (clients ?s') clientId = Some (?f c)"
    using reg by (simp add: cl map_of_map_entry)
  have 2: "\<forall>k. k \<noteq> clientId \<longrightarrow> map_of (clients ?s') k = map_of (clients s) k"
    by (simp add: cl map_of_map_entry)
  have 3: "map fst (clients ?s') = map fst (clients s)"
    unfolding cl by (rule map_fst_map_entry)
  have 4: "stockPrices ?s' = stockPrices s" "sent ?s' = sent s"
    using reg by (simp_all add: handleUnsubscribe_eq recalculateActiveSymbols_frame)
  have 5: "activeConsistent ?s'"
    using reg by (simp add: handleUnsubscribe_eq recalculateActiveSymbols_consistent)
  have 6: "symbol \<notin> set (activeSymbols ?s')"
    if sym: "symbol \<in> set L"
      and others: "\<forall>(k, c') \<in> set (clients s). k \<noteq> clientId \<longrightarrow> symbol \<notin> set (subscribedSymbols c')"
    for symbol
  proof
    assume "symbol \<in> set (activeSymbols ?s')"
    then have "symbol \<in> liveUnion ?s'" using 5 by (simp add: activeConsistent_def)
    then obtain k c' where kc: "(k, c') \<in> set (clients ?s')" "symbol \<in> set (subscribedSymbols c')"
      by (auto simp: liveUnion_def)
    from map_entry_set[OF dist kc(1)[unfolded cl]]
    show False using kc(2) others sym by auto
  qed
  have 7: "clients (handleClientDisconnect clientId s) = AList.delete clientId (clients s)"
    "stockPrices (handleClientDisconnect clientId s) = stockPrices s"
    by (simp_all add: handleClientDisconnect_def recalculateActiveSymbols_frame)
  have 8: "activeConsistent (handleClientDisconnect clientId s)"
    by (simp add: handleClientDisconnect_def recalculateActiveSymbols_consistent)
  have 9: "symbol \<notin> set (activeSymbols (handleClientDisconnect clientId s))"
    if others: "\<forall>(k, c') \<in> set (clients s). k \<noteq> clientId \<longrightarrow> symbol \<notin> set (subscribedSymbols c')"
    for symbol
  proof
    assume "symbol \<in> set (activeSymbols (handleClientDisconnect clientId s))"
    then have "symbol \<in> liveUnion (handleClientDisconnect clientId s)"
      using 8 by (simp add: activeConsistent_def)
    then obtain k c' where kc: "(k, c') \<in> set (AList.delete clientId (clients s))"
        "symbol \<in> set (subscribedSymbols c')"
      unfolding liveUnion_def 7 by auto
    then have "k \<noteq> clientId" "(k, c') \<in> set (clients s)" by (auto simp: AList.delete_eq)
    then show False using kc(2) others by auto
  qed
  show ?thesis using 1 2 3 4 5 6 7 8 9 by blast
qed

theorem handleUnsubscribe_frame_witness:
  "map_of (clients threeClients) ''client_b'' = Some (exampleClient 2 True [Str ''AAPL'', Str ''MSFT''])
   \<and> distinct (map fst (clients threeClients))
   \<and> map_of (clients (handleUnsubscribe ''client_b'' (SymbolArray [Str ''MSFT'']) threeClients)) ''client_b''
        = Some (exampleClient 2 True [Str ''AAPL''])
   \<and> Str ''MSFT'' \<notin> set (activeSymbols (handleUnsubscribe ''client_b'' (SymbolArray [Str ''MSFT'']) threeClients))
   \<and> stockPrices (handleUnsubscribe ''client_b'' (SymbolArray [Str ''MSFT'']) threeClients)
        = [(Str ''AAPL'', exampleRecord ''AAPL''), (Str ''MSFT'', exampleRecord ''MSFT'')]
   \<and> Str ''MSFT'' \<notin> set (activeSymbols (handleClientDisconnect ''client_b'' threeClients))
   \<and> stockPrices (handleClientDisconnect ''client_b'' threeClients)
        = [(Str ''AAPL'', exampleRecord ''AAPL''), (Str ''MSFT'', exampleRecord ''MSFT'')]"
  using handleUnsubscribe_frame [of threeClients "''client_b''" "exampleClient 2 True [Str ''AAPL'', Str ''MSFT'']" "[Str ''MSFT'']"]
  by (simp add: threeClients_def exampleClient_def)


section \<open>Subscribing\<close>

lemma list_all_update:
  "list_all P al \<Longrightarrow> P (k, v) \<Longrightarrow> list_all P (AList.update k v al)"
  by (induction al) auto

lemma wf_pricesD: "wf_prices s \<Longrightarrow> map_of (stockPrices s) k = Some r \<Longrightarrow> id_sym r = k"
  by (auto simp: wf_prices_def list_all_iff dest!: map_of_SomeD)

lemma initializeStockPrice_cases:
  obtains name where "symbol = Str name"
      "initializeStockPrice rand now symbol s = Returns (outcome_state (initializeStockPrice rand now symbol s))"
  | "\<And>name. symbol \<noteq> Str name"
      "initializeStockPrice rand now symbol s = Raises (s\<lparr>randomCalls := randomCalls s + 5\<rparr>)"
proof (cases "\<exists>name. symbol = Str name")
  case True
  then obtain name where "symbol = Str name" by blast
  then show ?thesis using that(1) by (simp add: initializeStockPrice_eq)
next
  case False
  then have "\<And>name. symbol \<noteq> Str name" by blast
  then show ?thesis using that(2) initializeStockPrice_raises by blast
qed

lemma initializeStockPrice_frame:
  "clients (outcome_state (initializeStockPrice rand now symbol s)) = clients s"
  "activeSymbols (outcome_state (initializeStockPrice rand now symbol s)) = activeSymbols s"
  "sent (outcome_state (initializeStockPrice rand now symbol s)) = sent s"
  by (cases rule: initializeStockPrice_cases[of symbol rand now s];
      simp add: initializeStockPrice_eq Let_def)+

lemma id_sym_initialData: "id_sym (initialData now name basePrice r1 r2 r3 r4) = Str name"
  by (simp add: initialData_def Let_def)

lemma initializeStockPrice_prices:
  "\<exists>rec. stockPrices (outcome_state (initializeStockPrice rand now (Str name) s)) =
        AList.update (Str name) rec (stockPrices s)
      \<and> id_sym rec = Str name"
proof -
  have "\<exists>bp r1 r2 r3 r4. stockPrices (outcome_state (initializeStockPrice rand now (Str name) s)) =
      AList.update (Str name) (initialData now name bp r1 r2 r3 r4) (stockPrices s)"
    by (simp add: initializeStockPrice_eq Let_def) blast
  then show ?thesis using id_sym_initialData by blast
qed

lemma initializeStockPrice_wf:
  assumes "wf_prices s"
  shows "wf_prices (outcome_state (initializeStockPrice rand now symbol s))"
proof (cases rule: initializeStockPrice_cases[of symbol rand now s])
  case (1 name)
  then show ?thesis
    using assms initializeStockPrice_prices[of rand now name s]
    by (auto simp: wf_prices_def intro: list_all_update)
next
  case 2
  then show ?thesis using assms by (simp add: wf_prices_def)
qed

lemma initializeStockPrice_lookup_same:
  "\<exists>r. map_of (stockPrices (outcome_state (initializeStockPrice rand now (Str name) s))) (Str name) = Some r"
  by (simp add: initializeStockPrice_eq Let_def update_conv')

lemma initializeStockPrice_lookup_other:
  assumes "k \<noteq> symbol"
  shows "map_of (stockPrices (outcome_state (initializeStockPrice rand now symbol s))) k =
     map_of (stockPrices s) k"
proof (cases rule: initializeStockPrice_cases[of symbol rand now s])
  case (1 name)
  then show ?thesis using assms by (simp add: initializeStockPrice_eq Let_def update_conv')
next
  case 2
  then show ?thesis by simp
qed

lemma subscribeStep_frame:
  "sent (subscribed rand now cid s sy) = sent s"
  "clients (subscribed rand now cid s sy) =
     AList.map_entry cid (\<lambda>c. c\<lparr>subscribedSymbols := set_add sy (subscribedSymbols c)\<rparr>) (clients s)"
  "activeSymbols (subscribed rand now cid s sy) = set_add sy (activeSymbols s)"
  by (simp_all add: subscribed_def subscribeStep_def Let_def initializeStockPrice_frame)

lemma subscribeStep_returns:
  "subscribeStep rand now cid s (Str name) = Returns (subscribed rand now cid s (Str name))"
  by (simp add: subscribed_def subscribeStep_def Let_def initializeStockPrice_eq)

lemma subscribeStep_has_record:
  "\<exists>r. map_of (stockPrices (subscribed rand now cid s (Str name))) (Str name) = Some r"
  by (auto simp add: subscribed_def subscribeStep_def Let_def initializeStockPrice_lookup_same)

lemma subscribeStep_keeps_record:
  "map_of (stockPrices s) k = Some r \<Longrightarrow> map_of (stockPrices (subscribed rand now cid s sy)) k = Some r"
  by (cases "k = sy")
    (auto simp add: subscribed_def subscribeStep_def Let_def initializeStockPrice_lookup_other)

lemma subscribeStep_wf: "wf_prices s \<Longrightarrow> wf_prices (subscribed rand now cid s sy)"
  by (auto simp add: subscribed_def subscribeStep_def Let_def
      wf_prices_def[of "_\<lparr>activeSymbols := _\<rparr>"] wf_prices_def[of s] intro!: initializeStockPrice_wf)

text \<open>On a list of strings the first loop runs to its end.\<close>

lemma subscribeAll_strings:
  "subscribeAll rand now cid (map Str names) s =
     Returns (foldl (subscribed rand now cid) s (map Str names))"
  by (induction names arbitrary: s) (simp_all add: subscribeStep_returns)

lemma subscribe_fold_sent: "sent (foldl (subscribed rand now cid) s syms) = sent s"
  by (induction syms arbitrary: s) (auto simp: subscribeStep_frame)

lemma subscribe_fold_wf: "wf_prices s \<Longrightarrow> wf_prices (foldl (subscribed rand now cid) s syms)"
  by (induction syms arbitrary: s) (auto simp: subscribeStep_wf)

lemma subscribe_fold_keeps_record:
  "map_of (stockPrices s) k = Some r \<Longrightarrow> map_of (stockPrices (foldl (subscribed rand now cid) s syms)) k = Some r"
  by (induction syms arbitrary: s) (auto simp: subscribeStep_keeps_record)

lemma subscribe_fold_has_record:
  "Str name \<in> set syms \<Longrightarrow>
   \<exists>r. map_of (stockPrices (foldl (subscribed rand now cid) s syms)) (Str name) = Some r"
proof (induction syms arbitrary: s)
  case Nil
  then show ?case by simp
next
  case (Cons a syms)
  show ?case
  proof (cases "Str name = a")
    case True
    obtain r where "map_of (stockPrices (subscribed rand now cid s a)) a = Some r"
      using subscribeStep_has_record[of rand now cid s name] True by auto
    then show ?thesis using True subscribe_fold_keeps_record by simp
  next
    case False
    then show ?thesis using Cons by simp
  qed
qed


lemma subscribe_fold_others:
  "k \<noteq> cid \<Longrightarrow> map_of (clients (foldl (subscribed rand now cid) s syms)) k = map_of (clients s) k"
  by (induction syms arbitrary: s) (auto simp: subscribeStep_frame map_of_map_entry)


lemma sendSnapshots_eq:
  assumes "\<not> sendThrows w" "\<forall>sy \<in> set syms. \<exists>r. map_of (stockPrices s) sy = Some r"
  shows "sendSnapshots w syms s =
    Returns (s\<lparr>sent := sent s @ map (\<lambda>sy. (sock w, TickerMsg (the (map_of (stockPrices s) sy)))) syms\<rparr>)"
  using assms
proof (induction syms arbitrary: s)
  case Nil
  then show ?case by simp
next
  case (Cons a syms)
  then obtain r where r: "map_of (stockPrices s) a = Some r" by auto
  let ?s1 = "s\<lparr>sent := sent s @ [(sock w, TickerMsg r)]\<rparr>"
  have "sendSnapshots w (a # syms) s = sendSnapshots w syms ?s1"
    using r Cons.prems(1) by (simp add: ws_send_def)
  also have "\<dots> = Returns (?s1\<lparr>sent := sent ?s1 @ map (\<lambda>sy. (sock w, TickerMsg (the (map_of (stockPrices ?s1) sy)))) syms\<rparr>)"
    using Cons.prems by (intro Cons.IH) auto
  finally show ?case using r by simp
qed

lemma handleSubscribe_eq:
  assumes "map_of (clients s) cid = Some c" "\<not> sendThrows (ws c)"
  shows "handleSubscribe rand now cid (SymbolArray (map Str names)) s =
    Returns ((foldl (subscribed rand now cid) s (map Str names))
      \<lparr>sent := sent s @ map (\<lambda>sy. (sock (ws c),
          TickerMsg (the (map_of (stockPrices (foldl (subscribed rand now cid) s (map Str names))) sy))))
            (map Str names)\<rparr>)"
proof -
  let ?s1 = "foldl (subscribed rand now cid) s (map Str names)"
  have "\<forall>sy \<in> set (map Str names). \<exists>r. map_of (stockPrices ?s1) sy = Some r"
    using subscribe_fold_has_record[of _ "map Str names" rand now cid s] by auto
  from sendSnapshots_eq[OF assms(2) this] show ?thesis
    using assms(1) by (simp add: handleSubscribe_def subscribeAll_strings subscribe_fold_sent)
qed

lemma tickersFor_snapshots:
  assumes "\<forall>sy \<in> set syms. \<exists>r. sp sy = Some r \<and> id_sym r = sy"
  shows "tickersFor symbol (map (\<lambda>sy. (k, TickerMsg (the (sp sy)))) syms) = replicate (count_list syms symbol) k"
  using assms by (induction syms) (auto simp: tickersFor_def)

lemma handleSubscribe_tickers:
  assumes reg: "map_of (clients s) clientId = Some c" and ok: "\<not> sendThrows (ws c)"
    and wf: "wf_prices s"
  shows "\<exists>s'. handleSubscribe rand now clientId (SymbolArray (map Str names)) s = Returns s'
      \<and> tickersFor symbol (newMessages s s') =
          replicate (count_list (map Str names) symbol) (sock (ws c))
      \<and> length (newMessages s s') = length names
      \<and> (\<forall>(k, m) \<in> set (newMessages s s'). k = sock (ws c))"
proof -
  let ?syms = "map Str names"
  let ?s1 = "foldl (subscribed rand now clientId) s ?syms"
  let ?msgs = "map (\<lambda>sy. (sock (ws c), TickerMsg (the (map_of (stockPrices ?s1) sy)))) ?syms"
  let ?s' = "?s1\<lparr>sent := sent s @ ?msgs\<rparr>"
  have eq: "handleSubscribe rand now clientId (SymbolArray ?syms) s = Returns ?s'"
    using reg ok by (rule handleSubscribe_eq)
  have new: "newMessages s ?s' = ?msgs" by (simp add: newMessages_def)
  have "\<forall>sy \<in> set ?syms. \<exists>r. map_of (stockPrices ?s1) sy = Some r \<and> id_sym r = sy"
    using subscribe_fold_has_record[of _ ?syms rand now clientId s]
      wf_pricesD[OF subscribe_fold_wf[OF wf, of rand now clientId ?syms]] by fastforce
  then have "tickersFor symbol ?msgs = replicate (count_list ?syms symbol) (sock (ws c))"
    by (rule tickersFor_snapshots)
  moreover have "\<forall>(k, m) \<in> set ?msgs. k = sock (ws c)" by auto
  ultimately show ?thesis using eq new by (intro exI[of _ ?s']) simp
qed

lemma wf_threeClients: "wf_prices threeClients"
  by (simp add: wf_prices_def threeClients_def id_sym_exampleRecord)

text \<open>
  Claim C6, as amended. A subscribe request of a registered client whose handle accepts the
  sends, with a list of symbol strings, returns, and the messages it sends are one
  snapshot per entry of the list, all on that client's own socket: a symbol is delivered
  to the client as many times as the request names it (once when it is named once) and to
  nobody else. Whether the client had subscribed to the symbol before makes no difference.
\<close>

theorem handleSubscribe_snapshots:
  assumes "map_of (clients s) clientId = Some c" and "\<not> sendThrows (ws c)" and "wf_prices s"
  shows "\<exists>s'. handleSubscribe rand now clientId (SymbolArray (map Str names)) s = Returns s'
      \<and> tickersFor symbol (newMessages s s') =
          replicate (count_list (map Str names) symbol) (sock (ws c))
      \<and> length (newMessages s s') = length names
      \<and> (\<forall>(k, m) \<in> set (newMessages s s'). k = sock (ws c))"
  using assms by (rule handleSubscribe_tickers)

theorem handleSubscribe_snapshots_witness:
  "map_of (clients threeClients) ''client_a'' = Some (exampleClient 1 False [Str ''AAPL''])
   \<and> \<not> sendThrows (ws (exampleClient 1 False [Str ''AAPL'']))
   \<and> wf_prices threeClients
   \<and> (\<exists>s'. handleSubscribe (\<lambda>n. 1/2) 0 ''client_a'' (SymbolArray [Str ''TSLA'']) threeClients = Returns s'
        \<and> tickersFor (Str ''TSLA'') (newMessages threeClients s') = [1]
        \<and> (\<forall>(k, m) \<in> set (newMessages threeClients s'). k = 1))"
proof -
  have 1: "map_of (clients threeClients) ''client_a'' = Some (exampleClient 1 False [Str ''AAPL''])"
    by (simp add: threeClients_def)
  have 2: "\<not> sendThrows (ws (exampleClient 1 False [Str ''AAPL'']))"
    by (simp add: exampleClient_def)
  show ?thesis
    using 1 2 wf_threeClients
      handleSubscribe_snapshots [OF 1 2 wf_threeClients, of "\<lambda>n. 1/2" 0 "[''TSLA'']" "Str ''TSLA''"]
    by (auto simp add: exampleClient_def)
qed

text \<open>
  Claim C6, as stated, fails for a request that names a symbol twice: the client, not
  subscribed to \<^verbatim>\<open>TSLA\<close> before, is sent two snapshots of it.
\<close>

theorem handleSubscribe_duplicate_counterexample:
  "Str ''TSLA'' \<notin> set (subscribedSymbols (exampleClient 1 False [Str ''AAPL'']))
   \<and> map_of (clients threeClients) ''client_a'' = Some (exampleClient 1 False [Str ''AAPL''])
   \<and> returned (handleSubscribe (\<lambda>n. 1/2) 0 ''client_a''
        (SymbolArray [Str ''TSLA'', Str ''TSLA'']) threeClients)
   \<and> tickersFor (Str ''TSLA'') (newMessages threeClients
        (outcome_state (handleSubscribe (\<lambda>n. 1/2) 0 ''client_a''
           (SymbolArray [Str ''TSLA'', Str ''TSLA'']) threeClients)))
       = [1, 1]"
proof -
  have 1: "map_of (clients threeClients) ''client_a'' = Some (exampleClient 1 False [Str ''AAPL''])"
    by (simp add: threeClients_def)
  have 2: "\<not> sendThrows (ws (exampleClient 1 False [Str ''AAPL'']))"
    by (simp add: exampleClient_def)
  obtain s' where s': "handleSubscribe (\<lambda>n. 1/2) 0 ''client_a''
        (SymbolArray (map Str [''TSLA'', ''TSLA''])) threeClients = Returns s'"
    "tickersFor (Str ''TSLA'') (newMessages threeClients s') =
       replicate (count_list (map Str [''TSLA'', ''TSLA'']) (Str ''TSLA''))
         (sock (ws (exampleClient 1 False [Str ''AAPL''])))"
    using handleSubscribe_tickers [OF 1 2 wf_threeClients, of "\<lambda>n. 1/2" 0 "[''TSLA'', ''TSLA'']" "Str ''TSLA''"]
    by blast
  show ?thesis using 1 s' by (simp add: exampleClient_def)
qed

section \<open>Incoming messages and connections\<close>


lemma onMessage_null:
  "map_of (clients s) clientId = Some c \<Longrightarrow> \<not> sendThrows w \<Longrightarrow>
   onMessage rand now clientId w (Parsed JsonNull) s =
     Returns (s\<lparr>sent := sent s @ [(sock w, ErrorMsg ''Invalid JSON message'')]\<rparr>)"
  by (simp add: onMessage_def handleClientMessage_def ws_send_def)







text \<open>
  Claim C5, as amended. Accepting a connection whose handle accepts the send makes the
  identifier \<^verbatim>\<open>client_\<close> followed by at most nine characters of the rendering of one
  random draw, registers under it a session with the new handle and an empty subscription
  set, leaves the sessions under other identifiers alone, and sends the acknowledgement
  with the identifier on the new handle. Nothing compares the identifier with those in
  use: another draw gives the same identifier exactly when its rendering agrees on these
  characters.
\<close>

theorem onConnection_registers:
  assumes "\<not> sendThrows w"
  shows "\<exists>cid s'. onConnection toString36 rand now w s = Returns (cid, s')
      \<and> cid = ''client_'' @ take 9 (drop 2 (toString36 (rand (randomCalls s))))
      \<and> map_of (clients s') cid = Some \<lparr>ws = w, subscribedSymbols = [], lastPing = now\<rparr>
      \<and> (\<forall>k. k \<noteq> cid \<longrightarrow> map_of (clients s') k = map_of (clients s) k)
      \<and> sent s' = sent s @ [(sock w, ConnectionMsg cid now)]
      \<and> activeSymbols s' = activeSymbols s
      \<and> stockPrices s' = stockPrices s
      \<and> (\<forall>rand' s0. (fst (generateClientId toString36 rand' s0) = cid)
            = (take 9 (drop 2 (toString36 (rand' (randomCalls s0))))
               = take 9 (drop 2 (toString36 (rand (randomCalls s))))))"
  using assms
  by (simp add: onConnection_def generateClientId_def Math_random_def substr_def ws_send_def
      Let_def update_conv')


theorem onConnection_registers_witness:
  "\<not> sendThrows \<lparr>sock = 1, readyState = OPEN, sendThrows = False\<rparr>
   \<and> onConnection exampleToString36 (\<lambda>n. 1/2) 5 \<lparr>sock = 1, readyState = OPEN, sendThrows = False\<rparr> constructor =
       Returns (''client_i'',
         \<lparr>clients = [(''client_i'', \<lparr>ws = \<lparr>sock = 1, readyState = OPEN, sendThrows = False\<rparr>,
                                     subscribedSymbols = [], lastPing = 5\<rparr>)],
          activeSymbols = [], stockPrices = [],
          sent = [(1, ConnectionMsg ''client_i'' 5)], randomCalls = 1\<rparr>)"
  using onConnection_registers [of "\<lparr>sock = 1, readyState = OPEN, sendThrows = False\<rparr>" exampleToString36 "\<lambda>n. 1/2" 5 constructor]
  by (simp add: onConnection_def generateClientId_def Math_random_def substr_def ws_send_def
      Let_def constructor_def exampleToString36_def)


text \<open>
  Claim C5, as stated, fails: two connections whose draws are both 0.5, rendered
  \<^verbatim>\<open>0.i\<close>, are both given the identifier \<^verbatim>\<open>client_i\<close>, and the session of the second
  replaces that of the first.
\<close>

theorem generateClientId_collision_counterexample:
  "fst (outcome_state (onConnection exampleToString36 (\<lambda>n. 1/2) 5
          \<lparr>sock = 1, readyState = OPEN, sendThrows = False\<rparr> constructor)) = ''client_i''
   \<and> fst (outcome_state (onConnection exampleToString36 (\<lambda>n. 1/2) 6
          \<lparr>sock = 2, readyState = OPEN, sendThrows = False\<rparr>
          (snd (outcome_state (onConnection exampleToString36 (\<lambda>n. 1/2) 5
             \<lparr>sock = 1, readyState = OPEN, sendThrows = False\<rparr> constructor))))) = ''client_i''
   \<and> clients (snd (outcome_state (onConnection exampleToString36 (\<lambda>n. 1/2) 6
          \<lparr>sock = 2, readyState = OPEN, sendThrows = False\<rparr>
          (snd (outcome_state (onConnection exampleToString36 (\<lambda>n. 1/2) 5
             \<lparr>sock = 1, readyState = OPEN, sendThrows = False\<rparr> constructor)))))) =
       [(''client_i'', \<lparr>ws = \<lparr>sock = 2, readyState = OPEN, sendThrows = False\<rparr>,
                        subscribedSymbols = [], lastPing = 6\<rparr>)]"
  by (simp add: onConnection_def generateClientId_def Math_random_def substr_def ws_send_def
      Let_def constructor_def exampleToString36_def)


section \<open>The tick\<close>

text \<open>
  For an entry that is not a string, what the loop of \<^verbatim>\<open>updatePrices\<close> does raises,
  with or without a record, and leaves the price records as they were.
\<close>

lemma updateSymbol_raises:
  assumes "\<And>name. symbol \<noteq> Str name"
  shows "\<not> returned (updateSymbol rand now s symbol)
       \<and> stockPrices (outcome_state (updateSymbol rand now s symbol)) = stockPrices s
       \<and> sent (outcome_state (updateSymbol rand now s symbol)) = sent s"
proof (cases "map_of (stockPrices s) symbol")
  case None
  then show ?thesis
    using initializeStockPrice_raises[OF assms, of rand now s] by (simp add: updateSymbol_def)
next
  case (Some currentData)
  show ?thesis
  proof (cases symbol)
    case (Str name)
    then show ?thesis using assms by blast
  qed (insert Some, simp_all add: updateSymbol_def)
qed

text \<open>
  Claim C10. A tick is meant to give an active symbol without a price record a new
  record, without advancing or broadcasting it. A symbol lacks a record when
  \<^verbatim>\<open>initializeStockPrice\<close> raised for it in \<^verbatim>\<open>handleSubscribe\<close>, after the symbol was added
  to both sets: the request \<^verbatim>\<open>{"type":"subscribe","symbols":[123]}\<close> is answered with an
  error message and leaves 123 active without a record. The tick then calls
  \<^verbatim>\<open>initializeStockPrice\<close> for it, which raises again: \<^verbatim>\<open>updatePrices\<close> does not return, no
  record is stored, and the symbols that come after 123 in \<^verbatim>\<open>activeSymbols\<close> are neither
  advanced nor broadcast.
\<close>

theorem updatePrices_raises_without_record:
  "numberSubscribed =
     Returns (oneClient\<lparr>clients := [(''client_a'', exampleClient 1 False [Number 123])],
                        activeSymbols := [Number 123],
                        sent := [(1, ErrorMsg ''Invalid JSON message'')],
                        randomCalls := 5\<rparr>)
   \<and> Number 123 \<in> set (activeSymbols (outcome_state numberSubscribed))
   \<and> map_of (stockPrices (outcome_state numberSubscribed)) (Number 123) = None
   \<and> \<not> returned (updatePrices (\<lambda>n. 1/2) 9 (outcome_state numberSubscribed))
   \<and> map_of (stockPrices (outcome_state (updatePrices (\<lambda>n. 1/2) 9 (outcome_state numberSubscribed))))
        (Number 123) = None
   \<and> returned numberThenString
   \<and> activeSymbols (outcome_state numberThenString) = [Number 123, Str ''AAPL'']
   \<and> \<not> returned (updatePrices (\<lambda>n. 1/2) 9 (outcome_state numberThenString))
   \<and> stockPrices (outcome_state (updatePrices (\<lambda>n. 1/2) 9 (outcome_state numberThenString))) =
       stockPrices (outcome_state numberThenString)
   \<and> newMessages (outcome_state numberThenString)
        (outcome_state (updatePrices (\<lambda>n. 1/2) 9 (outcome_state numberThenString))) = []"
proof -
  let ?s1 = "oneClient\<lparr>clients := [(''client_a'', exampleClient 1 False [Number 123])],
                        activeSymbols := [Number 123],
                        sent := [(1, ErrorMsg ''Invalid JSON message'')],
                        randomCalls := 5\<rparr>"
  have n: "numberSubscribed = Returns ?s1"
    by (simp add: numberSubscribed_def onMessage_def handleClientMessage_def handleSubscribe_def
        subscribeStep_def initializeStockPrice_raises oneClient_def exampleClient_def set_add_def
        ws_send_def Let_def)
  have ns: "outcome_state numberSubscribed = ?s1" by (simp only: n outcome_state.simps)
  have a: "activeSymbols ?s1 = [Number 123]" "stockPrices ?s1 = []" by (simp_all add: oneClient_def)
  have u: "\<not> returned (updateSymbol (\<lambda>n. 1/2) 9 s (Number 123))
      \<and> stockPrices (outcome_state (updateSymbol (\<lambda>n. 1/2) 9 s (Number 123))) = stockPrices s
      \<and> sent (outcome_state (updateSymbol (\<lambda>n. 1/2) 9 s (Number 123))) = sent s" for s
    by (rule updateSymbol_raises) simp
  have t1: "\<not> returned (updatePrices (\<lambda>n. 1/2) 9 ?s1)"
    "stockPrices (outcome_state (updatePrices (\<lambda>n. 1/2) 9 ?s1)) = stockPrices ?s1"
    using u[of ?s1]
    by (cases "updateSymbol (\<lambda>n. 1/2) 9 ?s1 (Number 123)"; simp add: updatePrices_def a)+
  obtain s2 where s2: "numberThenString = Returns s2" "activeSymbols s2 = [Number 123, Str ''AAPL'']"
    by (simp add: numberThenString_def n onMessage_def handleClientMessage_def handleSubscribe_def
        subscribeStep_def initializeStockPrice_eq oneClient_def exampleClient_def set_add_def
        ws_send_def Let_def update_conv')
  have ns2: "outcome_state numberThenString = s2" by (simp only: s2(1) outcome_state.simps)
  have t2: "\<not> returned (updatePrices (\<lambda>n. 1/2) 9 s2)"
    "stockPrices (outcome_state (updatePrices (\<lambda>n. 1/2) 9 s2)) = stockPrices s2"
    "sent (outcome_state (updatePrices (\<lambda>n. 1/2) 9 s2)) = sent s2"
    using u[of s2]
    by (cases "updateSymbol (\<lambda>n. 1/2) 9 s2 (Number 123)"; simp add: updatePrices_def s2)+
  have c2: "Number 123 \<in> set (activeSymbols (outcome_state numberSubscribed))"
    unfolding ns by (simp add: oneClient_def)
  have c3: "map_of (stockPrices (outcome_state numberSubscribed)) (Number 123) = None"
    unfolding ns by (simp add: oneClient_def)
  have c4: "\<not> returned (updatePrices (\<lambda>n. 1/2) 9 (outcome_state numberSubscribed))"
    unfolding ns by (rule t1(1))
  have c5: "map_of (stockPrices (outcome_state (updatePrices (\<lambda>n. 1/2) 9 (outcome_state numberSubscribed))))
        (Number 123) = None"
    unfolding ns t1(2) by (simp add: oneClient_def)
  have c6: "returned numberThenString" by (simp only: s2(1) returned.simps)
  have c7: "activeSymbols (outcome_state numberThenString) = [Number 123, Str ''AAPL'']"
    unfolding ns2 by (rule s2(2))
  have c8: "\<not> returned (updatePrices (\<lambda>n. 1/2) 9 (outcome_state numberThenString))"
    unfolding ns2 by (rule t2(1))
  have c9: "stockPrices (outcome_state (updatePrices (\<lambda>n. 1/2) 9 (outcome_state numberThenString))) =
       stockPrices (outcome_state numberThenString)"
    unfolding ns2 by (rule t2(2))
  have c10: "newMessages (outcome_state numberThenString)
        (outcome_state (updatePrices (\<lambda>n. 1/2) 9 (outcome_state numberThenString))) = []"
    unfolding ns2 by (simp add: newMessages_def t2(3))
  show ?thesis using n c2 c3 c4 c5 c6 c7 c8 c9 c10 by blast
qed

section \<open>The active symbols after the other operations\<close>

text \<open>
  Subscribe, unsubscribe, disconnect and the sweep of dead connections keep
  \<^verbatim>\<open>activeSymbols\<close> equal to the union of the subscription sets: the first adds each symbol
  to both, also when it raises afterwards, the others recompute it after changing
  \<^verbatim>\<open>clients\<close>. The fan-out is the one operation that does not.
\<close>

lemma sendSnapshots_frame:
  "clients (outcome_state (sendSnapshots w syms s)) = clients s
   \<and> activeSymbols (outcome_state (sendSnapshots w syms s)) = activeSymbols s
   \<and> stockPrices (outcome_state (sendSnapshots w syms s)) = stockPrices s"
proof (induction syms arbitrary: s)
  case Nil
  then show ?case by simp
next
  case (Cons a syms)
  show ?case
  proof (cases "map_of (stockPrices s) a")
    case None
    then show ?thesis using Cons by simp
  next
    case (Some r)
    show ?thesis
    proof (cases "sendThrows w")
      case True
      then show ?thesis using Some by (simp add: ws_send_def)
    next
      case False
      then show ?thesis
        using Some Cons[of "s\<lparr>sent := sent s @ [(sock w, TickerMsg r)]\<rparr>"] by (simp add: ws_send_def)
    qed
  qed
qed

lemma liveUnion_map_entry:
  assumes "k \<in> fst ` set al"
  shows "(\<Union>entry \<in> set (AList.map_entry k
              (\<lambda>c. c\<lparr>subscribedSymbols := set_add x (subscribedSymbols c)\<rparr>) al).
            set (subscribedSymbols (snd entry)))
       = insert x (\<Union>entry \<in> set al. set (subscribedSymbols (snd entry)))"
  using assms
proof (induction al)
  case Nil
  then show ?case by simp
next
  case (Cons e al)
  obtain a b where e: "e = (a, b)" by (cases e)
  show ?case
  proof (cases "a = k")
    case True
    then show ?thesis using e by (auto simp: set_add_def)
  next
    case False
    then have "k \<in> fst ` set al" using Cons.prems e by auto
    from Cons.IH[OF this] show ?thesis using False e by auto
  qed
qed

lemma subscribeStep_consistent:
  assumes "activeConsistent s" "clientId \<in> fst ` set (clients s)"
  shows "activeConsistent (subscribed rand now clientId s x)
       \<and> clientId \<in> fst ` set (clients (subscribed rand now clientId s x))"
proof -
  have "set (activeSymbols (subscribed rand now clientId s x)) = insert x (set (activeSymbols s))"
    by (auto simp: subscribeStep_frame set_add_def)
  moreover have "liveUnion (subscribed rand now clientId s x) = insert x (liveUnion s)"
    using assms(2) by (simp add: liveUnion_def subscribeStep_frame liveUnion_map_entry)
  ultimately show ?thesis using assms by (simp add: activeConsistent_def subscribeStep_frame dom_map_entry)
qed

lemma subscribeAll_consistent:
  "activeConsistent s \<Longrightarrow> clientId \<in> fst ` set (clients s) \<Longrightarrow>
   activeConsistent (outcome_state (subscribeAll rand now clientId syms s))"
proof (induction syms arbitrary: s)
  case Nil
  then show ?case by simp
next
  case (Cons a syms)
  note step = subscribeStep_consistent[OF Cons.prems, of rand now a]
  show ?case
  proof (cases "subscribeStep rand now clientId s a")
    case (Returns s')
    then have "s' = subscribed rand now clientId s a" by (simp add: subscribed_def)
    then show ?thesis using Returns step Cons.IH[of s'] by simp
  next
    case (Raises s')
    then have "s' = subscribed rand now clientId s a" by (simp add: subscribed_def)
    then show ?thesis using Raises step by simp
  qed
qed

lemma handleSubscribe_consistent:
  assumes "activeConsistent s"
  shows "activeConsistent (outcome_state (handleSubscribe rand now clientId symbols s))"
proof (cases "map_of (clients s) clientId")
  case None
  then show ?thesis using assms by (simp add: handleSubscribe_def)
next
  case (Some c)
  then have dom: "clientId \<in> fst ` set (clients s)"
    by (metis map_of_eq_None_iff option.distinct(1))
  show ?thesis
  proof (cases symbols)
    case NotAnArray
    then show ?thesis using assms Some by (simp add: handleSubscribe_def)
  next
    case (SymbolArray syms)
    have all: "activeConsistent (outcome_state (subscribeAll rand now clientId syms s))"
      using assms dom by (rule subscribeAll_consistent)
    show ?thesis
    proof (cases "subscribeAll rand now clientId syms s")
      case (Returns s1)
      then have "activeConsistent s1" using all by simp
      then have "activeConsistent (outcome_state (sendSnapshots (ws c) syms s1))"
        using sendSnapshots_frame[of "ws c" syms s1] by (simp add: activeConsistent_def liveUnion_def)
      then show ?thesis using Some SymbolArray Returns by (simp add: handleSubscribe_def)
    next
      case (Raises s1)
      then show ?thesis using Some SymbolArray all by (simp add: handleSubscribe_def)
    qed
  qed
qed

lemma handleUnsubscribe_consistent:
  "activeConsistent s \<Longrightarrow> activeConsistent (handleUnsubscribe clientId symbols s)"
  by (auto simp: handleUnsubscribe_def recalculateActiveSymbols_consistent
      split: option.splits js_symbols.splits)

lemma handleClientDisconnect_consistent: "activeConsistent (handleClientDisconnect clientId s)"
  by (simp add: handleClientDisconnect_def recalculateActiveSymbols_consistent)

lemma cleanup_fold:
  "foldl cleanupStep (s, n) es =
     (s\<lparr>clients := filter (\<lambda>e. fst e \<notin> fst ` {e \<in> set es. readyState (ws (snd e)) \<noteq> OPEN}) (clients s)\<rparr>,
      n + length (filter (\<lambda>e. readyState (ws (snd e)) \<noteq> OPEN) es))"
proof (induction es arbitrary: s n)
  case Nil
  then show ?case by simp
next
  case (Cons e es)
  obtain k c where e: "e = (k, c)" by (cases e)
  show ?case
  proof (cases "readyState (ws c) \<noteq> OPEN")
    case True
    have *: "{x \<in> set (e # es). readyState (ws (snd x)) \<noteq> OPEN}
        = insert e {x \<in> set es. readyState (ws (snd x)) \<noteq> OPEN}"
      using True e by auto
    have step: "cleanupStep (s, n) e = (s\<lparr>clients := filter (\<lambda>x. fst x \<noteq> k) (clients s)\<rparr>, n + 1)"
      using True by (simp add: cleanupStep_def e delete_filter)
    have "filter (\<lambda>x. fst x \<notin> fst ` {x \<in> set es. readyState (ws (snd x)) \<noteq> OPEN})
            (filter (\<lambda>x. fst x \<noteq> k) (clients s))
        = filter (\<lambda>x. fst x \<notin> fst ` {x \<in> set (e # es). readyState (ws (snd x)) \<noteq> OPEN}) (clients s)"
      unfolding * using e by (auto intro!: filter_cong)
    then show ?thesis using Cons.IH[of "s\<lparr>clients := filter (\<lambda>x. fst x \<noteq> k) (clients s)\<rparr>" "n + 1"] step True e
      by simp
  next
    case False
    have *: "{x \<in> set (e # es). readyState (ws (snd x)) \<noteq> OPEN}
        = {x \<in> set es. readyState (ws (snd x)) \<noteq> OPEN}"
      using False e by auto
    have step: "cleanupStep (s, n) e = (s, n)"
      using False by (simp add: cleanupStep_def e)
    show ?thesis using Cons.IH[of s n] step False e unfolding * by simp
  qed
qed

lemma cleanupConnections_consistent:
  assumes "activeConsistent s"
  shows "activeConsistent (cleanupConnections s)"
proof (cases "filter (\<lambda>e. readyState (ws (snd e)) \<noteq> OPEN) (clients s) = []")
  case True
  then have "{e \<in> set (clients s). readyState (ws (snd e)) \<noteq> OPEN} = {}"
    by (auto simp: filter_empty_conv)
  then have "foldl cleanupStep (s, 0) (clients s) = (s, 0)"
    by (simp only: cleanup_fold True) simp
  then show ?thesis using assms by (simp add: cleanupConnections_def)
next
  case False
  then have "0 < length (filter (\<lambda>e. readyState (ws (snd e)) \<noteq> OPEN) (clients s))" by simp
  then show ?thesis
    by (simp add: cleanupConnections_def cleanup_fold recalculateActiveSymbols_consistent)
qed


end
